theory Spec2Isabelle
  imports Main "HOL-Library.AList"
begin

section \<open>Bytes, strings and exceptions\<close>

text \<open>
  A Python \<^verbatim>\<open>bytes\<close> or \<^verbatim>\<open>bytearray\<close> value is a \<^typ>\<open>string\<close> (a list of 8-bit
  characters). A Python \<^verbatim>\<open>str\<close> is represented by its UTF-8 encoding, so
  \<^verbatim>\<open>s.encode("utf-8")\<close> is the identity and \<^verbatim>\<open>b.decode("utf-8")\<close> is the identity on
  well-formed UTF-8 and raises on anything else.
\<close>

datatype error = AssertionError | StructError | ZeroDivisionError | UnicodeDecodeError | ValueError

definition NUL :: char where
  "NUL = CHR 0x00"

text \<open>The state of an object after a method call: it returned, or it raised with the
  object left as it was at the raise.\<close>

datatype 's outcome = Done 's | Raised error 's

fun then_do :: "'s outcome \<Rightarrow> ('s \<Rightarrow> 's outcome) \<Rightarrow> 's outcome" where
  "then_do (Done s) f = f s"
| "then_do (Raised e s) f = Raised e s"

subsection \<open>struct.pack\<close>

fun le_bytes :: "nat \<Rightarrow> nat \<Rightarrow> string" where
  "le_bytes 0 v = []"
| "le_bytes (Suc n) v = char_of (v mod 256) # le_bytes n (v div 256)"

text \<open>\<^verbatim>\<open>struct.pack(prefix + "B", v)\<close>: one byte; \<^verbatim>\<open>struct.error\<close> outside 0..255.\<close>

definition u8 :: "int \<Rightarrow> error + string" where
  "u8 v = (if 0 \<le> v \<and> v \<le> 255 then Inr [char_of v] else Inl StructError)"

text \<open>\<^verbatim>\<open>struct.pack(prefix + "Q", v)\<close>: eight bytes, little-endian when the writer's
  endianness flag is 0 (prefix \<^verbatim>\<open><\<close>), big-endian otherwise (prefix \<^verbatim>\<open>>\<close>);
  \<^verbatim>\<open>struct.error\<close> outside 0..2^64-1.\<close>

definition u64_bytes :: "nat \<Rightarrow> nat \<Rightarrow> string" where
  "u64_bytes flag v = (if flag = 0 then le_bytes 8 v else rev (le_bytes 8 v))"

definition u64 :: "nat \<Rightarrow> int \<Rightarrow> error + string" where
  "u64 flag v =
     (if 0 \<le> v \<and> v < 2 ^ 64 then Inr (u64_bytes flag (nat v)) else Inl StructError)"

text \<open>\<^verbatim>\<open>struct.pack("BBB", major, minor, patch)\<close>.\<close>

definition pack_BBB :: "int \<Rightarrow> int \<Rightarrow> int \<Rightarrow> error + string" where
  "pack_BBB a b c =
     (if 0 \<le> a \<and> a \<le> 255 \<and> 0 \<le> b \<and> b \<le> 255 \<and> 0 \<le> c \<and> c \<le> 255
      then Inr [char_of a, char_of b, char_of c] else Inl StructError)"

section \<open>RAGFileWriter\<close>

record writer =
  buf :: string
  index_entries :: "(string \<times> nat \<times> nat) list"
  endian_flag :: nat

definition MAGIC :: string where
  "MAGIC = ''RAGFILE''"

text \<open>\<^verbatim>\<open>__init__\<close>: the flag is 0 on a little-endian host and 1 on a big-endian one.\<close>

definition init_writer :: "bool \<Rightarrow> writer" where
  "init_writer little = \<lparr>buf = [], index_entries = [], endian_flag = (if little then 0 else 1)\<rparr>"

text \<open>\<^verbatim>\<open>self.buf += e\<close>: the right-hand side is evaluated first, so a raise leaves the
  buffer as it was.\<close>

fun append_buf :: "error + string \<Rightarrow> writer \<Rightarrow> writer outcome" where
  "append_buf (Inr bs) w = Done (w\<lparr>buf := buf w @ bs\<rparr>)"
| "append_buf (Inl e) w = Raised e w"

text \<open>\<^verbatim>\<open>self.buf[i:j] = e\<close> for \<open>i \<le> j\<close> within the buffer.\<close>

fun assign_slice :: "nat \<Rightarrow> nat \<Rightarrow> error + string \<Rightarrow> writer \<Rightarrow> writer outcome" where
  "assign_slice i j (Inr bs) w = Done (w\<lparr>buf := take i (buf w) @ bs @ drop j (buf w)\<rparr>)"
| "assign_slice i j (Inl e) w = Raised e w"

text \<open>\<^verbatim>\<open>_pad\<close>. Python's \<^verbatim>\<open>%\<close> takes the sign of the divisor, as \<open>mod\<close> on \<^typ>\<open>int\<close>
  does, and raises on a zero divisor; \<^verbatim>\<open>b"\x00" * n\<close> is empty for \<open>n \<le> 0\<close>.\<close>

definition pad :: "string \<Rightarrow> int \<Rightarrow> error + string" where
  "pad data alignment =
     (if alignment = 0 then Inl ZeroDivisionError
      else let pad_len = (alignment - (int (length data) mod alignment)) mod alignment
           in Inr (data @ replicate (nat pad_len) NUL))"

definition write_header :: "int \<Rightarrow> int \<Rightarrow> int \<Rightarrow> writer \<Rightarrow> writer outcome" where
  "write_header major minor patch w =
     then_do (append_buf (Inr MAGIC) w) (\<lambda>w.
     then_do (append_buf (pack_BBB major minor patch) w) (\<lambda>w.
     append_buf (u8 (int (endian_flag w))) w))"

subsection \<open>Section writers\<close>

text \<open>A keyword pair is the dict \<^verbatim>\<open>{"keyword": k, "content": c}\<close>; the record written for
  it is \<^verbatim>\<open>f"{k}-{c}".encode("utf-8")\<close>.\<close>

type_synonym pair = "string \<times> string"

definition keyword_record :: "pair \<Rightarrow> string" where
  "keyword_record p = fst p @ ''-'' @ snd p"

text \<open>The loop \<^verbatim>\<open>for pair in pairs: self.buf += self._pad(record, padding)\<close>, over the
  records already built.\<close>

fun write_records :: "string list \<Rightarrow> int \<Rightarrow> writer \<Rightarrow> writer outcome" where
  "write_records [] padding w = Done w"
| "write_records (record # records) padding w =
     (case append_buf (pad record padding) w of
        Done w' \<Rightarrow> write_records records padding w'
      | Raised e w' \<Rightarrow> Raised e w')"

definition write_keyword_section :: "pair list \<Rightarrow> int \<Rightarrow> writer \<Rightarrow> writer outcome" where
  "write_keyword_section pairs padding w =
     (if padding \<notin> {4, 8, 16} then Raised AssertionError w
      else
        let start = length (buf w) in
        then_do (append_buf (u64 (endian_flag w) 0) w) (\<lambda>w.
        then_do (append_buf (u64 (endian_flag w) 0) w) (\<lambda>w.
        then_do (append_buf (u8 padding) w) (\<lambda>w.
        let data_start = length (buf w) in
        then_do (write_records (map keyword_record pairs) padding w) (\<lambda>w.
        let data_end = length (buf w) in
        then_do (assign_slice start (start + 8) (u64 (endian_flag w) (int data_start)) w) (\<lambda>w.
        then_do (assign_slice (start + 8) (start + 16) (u64 (endian_flag w) (int data_end)) w) (\<lambda>w.
        Done (w\<lparr>index_entries := index_entries w @ [(''keyword'', data_start, data_end)]\<rparr>))))))))"

text \<open>An embedding pair is \<^verbatim>\<open>{"embedding": emb, "content": c}\<close>. The array type and
  \<^verbatim>\<open>emb.astype(np.float16 if precision == 16 else np.float32).tobytes()\<close> are numpy's:
  the conversion is the parameter \<open>tobytes\<close>, applied to the precision and the array.\<close>

definition embedding_record :: "(int \<Rightarrow> 'v \<Rightarrow> string) \<Rightarrow> int \<Rightarrow> 'v \<times> string \<Rightarrow> string" where
  "embedding_record tobytes precision p = tobytes precision (fst p) @ ''-'' @ snd p"

definition write_embedding_section ::
  "(int \<Rightarrow> 'v \<Rightarrow> string) \<Rightarrow> ('v \<times> string) list \<Rightarrow> int \<Rightarrow> int \<Rightarrow> writer \<Rightarrow> writer outcome" where
  "write_embedding_section tobytes pairs padding precision w =
     (if padding \<notin> {4, 8, 16} then Raised AssertionError w
      else if precision \<notin> {16, 32} then Raised AssertionError w
      else
        let start = length (buf w) in
        then_do (append_buf (u8 precision) w) (\<lambda>w.
        then_do (append_buf (u64 (endian_flag w) 0) w) (\<lambda>w.
        then_do (append_buf (u64 (endian_flag w) 0) w) (\<lambda>w.
        then_do (append_buf (u8 padding) w) (\<lambda>w.
        let data_start = length (buf w) in
        then_do (write_records (map (embedding_record tobytes precision) pairs) padding w) (\<lambda>w.
        let data_end = length (buf w) in
        then_do (assign_slice (start + 1) (start + 9) (u64 (endian_flag w) (int data_start)) w) (\<lambda>w.
        then_do (assign_slice (start + 9) (start + 17) (u64 (endian_flag w) (int data_end)) w) (\<lambda>w.
        Done (w\<lparr>index_entries := index_entries w @ [(''vector'', data_start, data_end)]\<rparr>)))))))))"

subsection \<open>Index table and finalize\<close>

text \<open>\<^verbatim>\<open>str(n)\<close> for a non-negative integer of at most 4300 digits, as every buffer
  length is.\<close>

definition digit_char :: "nat \<Rightarrow> char" where
  "digit_char d = char_of (48 + d)"

fun str_nat :: "nat \<Rightarrow> string" where
  "str_nat n = (if n < 10 then [digit_char n] else str_nat (n div 10) @ [digit_char (n mod 10)])"

declare str_nat.simps [simp del]

text \<open>\<^verbatim>\<open>f"{name}-({start},{end})".encode("utf-8") + b"\x00"\<close>.\<close>

definition index_entry :: "string \<times> nat \<times> nat \<Rightarrow> string" where
  "index_entry e =
     (case e of (name, start, end) \<Rightarrow>
        name @ ''-('' @ str_nat start @ '','' @ str_nat end @ '')'' @ [NUL])"

definition index_table :: "(string \<times> nat \<times> nat) list \<Rightarrow> string" where
  "index_table entries = concat (map index_entry entries)"

definition header_end :: nat where
  "header_end = length MAGIC + 3 + 1"

text \<open>\<^verbatim>\<open>write_index_strategy\<close>: the table is built, the buffer is extended with zero bytes
  if it is shorter than header and table together, and the table is stored over the
  bytes at \<open>header_end\<close>.\<close>

definition write_index_strategy :: "writer \<Rightarrow> writer" where
  "write_index_strategy w =
     (let table = index_table (index_entries w);
          b = (if length (buf w) < header_end + length table
               then buf w @ replicate (header_end + length table - length (buf w)) NUL
               else buf w)
      in w\<lparr>buf := take header_end b @ table @ drop (header_end + length table) b\<rparr>)"

text \<open>\<^verbatim>\<open>finalize\<close>: the writer afterwards, and the bytes written to the file.\<close>

definition finalize :: "writer \<Rightarrow> writer \<times> string" where
  "finalize w = (let w' = write_index_strategy w in (w', buf w'))"

section \<open>RAGFileReader\<close>

subsection \<open>Operations of bytes and str\<close>

text \<open>\<^verbatim>\<open>b.decode("utf-8")\<close> succeeds on exactly the well-formed UTF-8 sequences: no
  overlong forms, no surrogates, nothing above U+10FFFF.\<close>

definition cont :: "nat \<Rightarrow> bool" where
  "cont b = (128 \<le> b \<and> b \<le> 191)"

fun utf8_ok :: "nat list \<Rightarrow> bool" where
  "utf8_ok [] = True"
| "utf8_ok (a # bs) =
     (if a < 128 then utf8_ok bs
      else if 194 \<le> a \<and> a \<le> 223 then
        (case bs of b # r \<Rightarrow> cont b \<and> utf8_ok r | _ \<Rightarrow> False)
      else if 224 \<le> a \<and> a \<le> 239 then
        (case bs of
           b # c # r \<Rightarrow>
             (if a = 224 then 160 \<le> b \<and> b \<le> 191
              else if a = 237 then 128 \<le> b \<and> b \<le> 159
              else cont b) \<and> cont c \<and> utf8_ok r
         | _ \<Rightarrow> False)
      else if 240 \<le> a \<and> a \<le> 244 then
        (case bs of
           b # c # d # r \<Rightarrow>
             (if a = 240 then 144 \<le> b \<and> b \<le> 191
              else if a = 244 then 128 \<le> b \<and> b \<le> 143
              else cont b) \<and> cont c \<and> cont d \<and> utf8_ok r
         | _ \<Rightarrow> False)
      else False)"

definition utf8_valid :: "string \<Rightarrow> bool" where
  "utf8_valid s = utf8_ok (map of_char s)"

text \<open>\<^verbatim>\<open>s.split(sep)\<close> for a non-empty separator, on bytes and on str alike (the
  separators used are ASCII, so splitting the UTF-8 encoding splits the str): the pieces
  between the non-overlapping occurrences of \<open>sep\<close>, found from the left.\<close>

function split_on :: "'a list \<Rightarrow> 'a list \<Rightarrow> 'a list list" where
  "split_on sep [] = [[]]"
| "split_on sep (c # cs) =
     (if sep \<noteq> [] \<and> take (length sep) (c # cs) = sep
      then [] # split_on sep (drop (length sep) (c # cs))
      else (case split_on sep cs of
              piece # pieces \<Rightarrow> (c # piece) # pieces
            | [] \<Rightarrow> [[c]]))"
  by pat_completeness auto
termination
  by (relation "measure (\<lambda>(sep, s). length s)") (auto split: list.splits)

text \<open>\<^verbatim>\<open>rec.split(b"-", 1)\<close> for a record that contains the delimiter: the bytes before
  the first one, and the bytes after it.\<close>

definition split_first :: "char \<Rightarrow> string \<Rightarrow> string \<times> string" where
  "split_first d s = (takeWhile (\<lambda>c. c \<noteq> d) s, drop 1 (dropWhile (\<lambda>c. c \<noteq> d) s))"

text \<open>\<^verbatim>\<open>s[:-1]\<close> on a str: the last code point goes, that is the last lead byte of the
  encoding with the continuation bytes after it.\<close>

definition str_drop_last :: "string \<Rightarrow> string" where
  "str_drop_last s = butlast (rev (dropWhile (\<lambda>c. cont (of_char c)) (rev s)))"

text \<open>The code points of a str, from its UTF-8 encoding (applied to well-formed
  encodings only).\<close>

fun code_points :: "int list \<Rightarrow> int list" where
  "code_points [] = []"
| "code_points (a # bs) =
     (if a < 128 then a # code_points bs
      else if a < 224 then
        (case bs of b # r \<Rightarrow> ((a - 192) * 64 + (b - 128)) # code_points r | _ \<Rightarrow> [])
      else if a < 240 then
        (case bs of
           b # c # r \<Rightarrow> ((a - 224) * 4096 + (b - 128) * 64 + (c - 128)) # code_points r
         | _ \<Rightarrow> [])
      else
        (case bs of
           b # c # d # r \<Rightarrow>
             ((a - 240) * 262144 + (b - 128) * 4096 + (c - 128) * 64 + (d - 128))
               # code_points r
         | _ \<Rightarrow> []))"

text \<open>\<^verbatim>\<open>int(s)\<close> on a str, base 10, as CPython 3.11 computes it. First every code point
  from 127 on is replaced: Unicode whitespace by a space, a Unicode decimal digit by its
  ASCII digit, and anything else makes the literal invalid. The tables are those of
  Unicode 14.0: \<open>unicode_space\<close> lists the whitespace from U+007F on, and
  \<open>decimal_zeros\<close> the digit zero of every block of ten decimal digits outside ASCII.\<close>

definition unicode_space :: "int \<Rightarrow> bool" where
  "unicode_space cp =
     (cp = 133 \<or> cp = 160 \<or> cp = 5760 \<or> (8192 \<le> cp \<and> cp \<le> 8202) \<or> cp = 8232
      \<or> cp = 8233 \<or> cp = 8239 \<or> cp = 8287 \<or> cp = 12288)"

definition decimal_zeros :: "int list" where
  "decimal_zeros =
    [1632, 1776, 1984, 2406, 2534, 2662, 2790, 2918, 3046, 3174, 3302, 3430, 3558, 3664,
     3792, 3872, 4160, 4240, 6112, 6160, 6470, 6608, 6784, 6800, 6992, 7088, 7232, 7248,
     42528, 43216, 43264, 43472, 43504, 43600, 44016, 65296, 66720, 68912, 69734, 69872,
     69942, 70096, 70384, 70736, 70864, 71248, 71360, 71472, 71904, 72016, 72784, 73040,
     73120, 92768, 92864, 93008, 120782, 120792, 120802, 120812, 120822, 123200, 123632,
     125264, 130032]"

definition unicode_decimal :: "int \<Rightarrow> int option" where
  "unicode_decimal cp =
     (case filter (\<lambda>z. z \<le> cp \<and> cp < z + 10) decimal_zeros of
        z # _ \<Rightarrow> Some (cp - z)
      | [] \<Rightarrow> None)"

definition to_ascii_cp :: "int \<Rightarrow> int option" where
  "to_ascii_cp cp =
     (if cp < 127 then Some cp
      else if unicode_space cp then Some 32
      else map_option (\<lambda>d. 48 + d) (unicode_decimal cp))"

fun to_ascii :: "int list \<Rightarrow> string option" where
  "to_ascii [] = Some []"
| "to_ascii (cp # cps) =
     (case to_ascii_cp cp of
        None \<Rightarrow> None
      | Some a \<Rightarrow> map_option (\<lambda>t. char_of a # t) (to_ascii cps))"

text \<open>Then the ASCII literal is read: the whitespace of C's \<^verbatim>\<open>isspace\<close> (tab, LF, VT,
  FF, CR, space) is skipped at both ends, one sign may lead, single underscores may
  stand between digits, and a literal of more than 4300 digits is refused (the default
  of \<^verbatim>\<open>sys.get_int_max_str_digits()\<close>).\<close>

definition is_space :: "char \<Rightarrow> bool" where
  "is_space c = (let n = (of_char c :: nat) in (9 \<le> n \<and> n \<le> 13) \<or> n = 32)"

definition is_digit :: "char \<Rightarrow> bool" where
  "is_digit c = (let n = (of_char c :: nat) in 48 \<le> n \<and> n \<le> 57)"

definition digit_val :: "char \<Rightarrow> int" where
  "digit_val c = int (of_char c) - 48"

definition strip :: "string \<Rightarrow> string" where
  "strip s = dropWhile is_space (rev (dropWhile is_space (rev s)))"

fun int_digits :: "int \<Rightarrow> string \<Rightarrow> int option" where
  "int_digits acc [] = Some acc"
| "int_digits acc (c # cs) =
     (if is_digit c then int_digits (acc * 10 + digit_val c) cs
      else if c = CHR ''_'' then
        (case cs of
           d # ds \<Rightarrow> if is_digit d then int_digits (acc * 10 + digit_val d) ds else None
         | [] \<Rightarrow> None)
      else None)"

definition int_unsigned :: "string \<Rightarrow> int option" where
  "int_unsigned s =
     (case s of
        c # cs \<Rightarrow>
          if is_digit c then
            (if 4300 < length (filter is_digit s) then None else int_digits (digit_val c) cs)
          else None
      | [] \<Rightarrow> None)"

definition int_literal :: "string \<Rightarrow> int option" where
  "int_literal s =
     (case strip s of
        [] \<Rightarrow> None
      | c # cs \<Rightarrow>
          if c = CHR ''+'' then int_unsigned cs
          else if c = CHR ''-'' then map_option uminus (int_unsigned cs)
          else int_unsigned (c # cs))"

definition py_int :: "string \<Rightarrow> int option" where
  "py_int s =
     (case to_ascii (code_points (map of_char s)) of
        None \<Rightarrow> None
      | Some t \<Rightarrow> int_literal t)"

text \<open>Python slicing \<^verbatim>\<open>xs[i:j]\<close>: a negative bound counts from the end, and both bounds
  are clamped to the sequence.\<close>

definition py_slice :: "'a list \<Rightarrow> int \<Rightarrow> int \<Rightarrow> 'a list" where
  "py_slice xs i j =
     (let n = int (length xs);
          i' = (if i < 0 then max (i + n) 0 else min i n);
          j' = (if j < 0 then max (j + n) 0 else min j n)
      in take (nat (j' - i')) (drop (nat i') xs))"

subsection \<open>parse\_index\<close>

text \<open>The reader's state is its cached index, a dict from section name to
  \<open>(start, end)\<close>, kept as an association list with one pair per key.\<close>

record reader =
  index :: "(string \<times> int \<times> int) list"

definition init_reader :: reader where
  "init_reader = \<lparr>index = []\<rparr>"

definition reader_header_end :: nat where
  "reader_header_end = 11"

text \<open>The read loop of \<^verbatim>\<open>parse_index\<close>, on the bytes of the file from the current
  position: one byte at a time until the end of the file or a zero byte.\<close>

fun read_index_bytes :: "string \<Rightarrow> string" where
  "read_index_bytes [] = []"
| "read_index_bytes (b # rest) = (if b = NUL then [] else b # read_index_bytes rest)"

text \<open>The body of the \<^verbatim>\<open>try\<close>: \<open>None\<close> when any step raises.\<close>

definition parse_entry :: "string \<Rightarrow> (string \<times> int \<times> int) option" where
  "parse_entry entry =
     (if \<not> utf8_valid entry then None
      else case split_on ''-('' entry of
        [name, rest] \<Rightarrow>
          (case split_on '','' (str_drop_last rest) of
             [start_str, end_str] \<Rightarrow>
               (case py_int start_str of
                  None \<Rightarrow> None
                | Some start \<Rightarrow>
                    (case py_int end_str of
                       None \<Rightarrow> None
                     | Some end \<Rightarrow> Some (name, start, end)))
           | _ \<Rightarrow> None)
      | _ \<Rightarrow> None)"

text \<open>The loop over the entries: an empty entry and an entry whose parse raised are
  passed over (\<^verbatim>\<open>continue\<close>).\<close>

fun store_entries :: "string list \<Rightarrow> (string \<times> int \<times> int) list \<Rightarrow> (string \<times> int \<times> int) list" where
  "store_entries [] idx = idx"
| "store_entries (entry # entries) idx =
     (if entry = [] then store_entries entries idx
      else case parse_entry entry of
        None \<Rightarrow> store_entries entries idx
      | Some (name, se) \<Rightarrow> store_entries entries (AList.update name se idx))"

definition parse_index :: "string \<Rightarrow> reader \<Rightarrow> reader" where
  "parse_index file rd =
     (let b = read_index_bytes (drop reader_header_end file);
          entries = split_on [NUL] b
      in rd\<lparr>index := store_entries entries []\<rparr>)"

subsection \<open>search\_keyword\<close>

text \<open>The loop over the records of one block. A result dict
  \<^verbatim>\<open>{"keyword": k, "content": v}\<close> is the pair \<open>(k, v)\<close>.\<close>

fun scan_records :: "string \<Rightarrow> string list \<Rightarrow> pair list \<Rightarrow> error + pair list" where
  "scan_records keyword [] results = Inr results"
| "scan_records keyword (rec # recs) results =
     (if CHR ''-'' \<notin> set rec then scan_records keyword recs results
      else
        let (k, v) = split_first (CHR ''-'') rec in
        if \<not> utf8_valid k then Inl UnicodeDecodeError
        else if k = keyword then
          (if \<not> utf8_valid v then Inl UnicodeDecodeError
           else scan_records keyword recs (results @ [(k, v)]))
        else scan_records keyword recs results)"

text \<open>The \<^verbatim>\<open>while pos < end\<close> loop over the mapped file \<open>mm\<close>.\<close>

function search_loop :: "string \<Rightarrow> string \<Rightarrow> int \<Rightarrow> int \<Rightarrow> int \<Rightarrow> pair list \<Rightarrow> error + pair list" where
  "search_loop mm keyword padding pos end results =
     (if pos < end then
        let block = py_slice mm pos (pos + padding * 256) in
        if block = [] then Inr results
        else (case scan_records keyword (split_on [NUL] block) results of
                Inl e \<Rightarrow> Inl e
              | Inr results' \<Rightarrow>
                  search_loop mm keyword padding (pos + int (length block)) end results')
      else Inr results)"
  by pat_completeness auto
termination
  by (relation "measure (\<lambda>(mm, keyword, padding, pos, end, results). nat (end - pos))") auto

declare search_loop.simps [simp del]

text \<open>\<^verbatim>\<open>search_keyword\<close> on a file with the given bytes: the result or the exception,
  and the reader afterwards. Mapping an empty file raises \<^verbatim>\<open>ValueError\<close>.\<close>

definition search_keyword :: "string \<Rightarrow> string \<Rightarrow> int \<Rightarrow> reader \<Rightarrow> (error + pair list) \<times> reader" where
  "search_keyword file keyword padding rd =
     (let rd' = (if index rd = [] then parse_index file rd else rd) in
      case map_of (index rd') ''keyword'' of
        None \<Rightarrow> (Inr [], rd')
      | Some (start, end) \<Rightarrow>
          (if file = [] then (Inl ValueError, rd')
           else (search_loop file keyword padding start end [], rd')))"

section \<open>Drivers\<close>

text \<open>The writer after a call, whether the call returned or raised.\<close>

fun state_of :: "'s outcome \<Rightarrow> 's" where
  "state_of (Done s) = s"
| "state_of (Raised e s) = s"

text \<open>The write sequence of \<^verbatim>\<open>keyword_bench.py\<close>: header with the default version,
  one keyword section, finalize. The result is the file written, if no call raised.\<close>

definition keyword_file :: "bool \<Rightarrow> pair list \<Rightarrow> int \<Rightarrow> string option" where
  "keyword_file little pairs padding =
     (case then_do (write_header 0 1 0 (init_writer little)) (write_keyword_section pairs padding) of
        Done w \<Rightarrow> Some (snd (finalize w))
      | Raised e w \<Rightarrow> None)"

text \<open>The write sequence of \<^verbatim>\<open>ragfile_tester.py\<close> up to \<^verbatim>\<open>finalize\<close>: header, keyword
  section, embedding section.\<close>

definition tester_sections ::
  "bool \<Rightarrow> (int \<Rightarrow> 'v \<Rightarrow> string) \<Rightarrow> pair list \<Rightarrow> ('v \<times> string) list \<Rightarrow> int \<Rightarrow> int \<Rightarrow> writer outcome" where
  "tester_sections little tobytes kpairs epairs padding precision =
     then_do (then_do (write_header 0 1 0 (init_writer little))
       (write_keyword_section kpairs padding))
       (write_embedding_section tobytes epairs padding precision)"

text \<open>An embedding handed over as the bytes numpy would produce for it.\<close>

definition raw_bytes :: "int \<Rightarrow> string \<Rightarrow> string" where
  "raw_bytes precision emb = emb"

text \<open>A fresh reader searching the file just written, as \<^verbatim>\<open>keyword_bench.py\<close> does.\<close>

definition search_fresh :: "string option \<Rightarrow> string \<Rightarrow> int \<Rightarrow> (error + pair list) option" where
  "search_fresh file keyword padding =
     map_option (\<lambda>f. fst (search_keyword f keyword padding init_reader)) file"

text \<open>The writer still holds the bytes \<open>b\<close> at the offsets they had.\<close>

definition keeps :: "string \<Rightarrow> writer \<Rightarrow> bool" where
  "keeps b w = (length b \<le> length (buf w) \<and> take (length b) (buf w) = b)"

fun returned :: "'s outcome \<Rightarrow> bool" where
  "returned (Done s) = True"
| "returned (Raised e s) = False"

text \<open>The in-memory search of \<^verbatim>\<open>keyword_bench.py\<close>, against which it compares the file
  search: \<^verbatim>\<open>[p for p in pairs if p["keyword"] == search_kw]\<close>.\<close>

definition python_search :: "pair list \<Rightarrow> string \<Rightarrow> pair list" where
  "python_search pairs search_kw = filter (\<lambda>p. fst p = search_kw) pairs"

text \<open>A file laid out as the class docstrings describe, on a little-endian host: header,
  index table of two entries at offset 11, keyword section (metadata at 43, the record
  \<^verbatim>\<open>ab-xy\<close> at 60..68), embedding section (metadata at 68, two records of a one-element
  float32 vector and a content byte at 86..102), all with alignment 8.\<close>

definition layout_file :: string where
  "layout_file =
     MAGIC @ [CHR 0x00, CHR 0x01, CHR 0x00] @ [CHR 0x00]
     @ index_table [(''keyword'', 60, 68), (''vector'', 86, 102)]
     @ le_bytes 8 60 @ le_bytes 8 68 @ [CHR 0x08]
     @ ''ab-xy'' @ replicate 3 NUL
     @ [CHR 0x20] @ le_bytes 8 86 @ le_bytes 8 102 @ [CHR 0x08]
     @ ''AAAA-c'' @ replicate 2 NUL @ ''BBBB-d'' @ replicate 2 NUL"

section \<open>Argument checks\<close>

text \<open>
  C6. \<^verbatim>\<open>write_keyword_section\<close> with an alignment outside 4, 8, 16, and
  \<^verbatim>\<open>write_embedding_section\<close> with such an alignment or a precision outside 16, 32,
  raise at the leading \<^verbatim>\<open>assert\<close> (the code's argument failure is an
  \<^verbatim>\<open>AssertionError\<close>), and the writer at the raise is the writer before the call:
  buffer and index entries are untouched.
\<close>

theorem invalid_argument_leaves_writer:
  "(padding \<notin> {4, 8, 16} \<longrightarrow>
      write_keyword_section pairs padding w = Raised AssertionError w)
   \<and> (padding \<notin> {4, 8, 16} \<or> precision \<notin> {16, 32} \<longrightarrow>
        write_embedding_section tobytes epairs padding precision w = Raised AssertionError w)"
  by (auto simp: write_keyword_section_def write_embedding_section_def)

theorem invalid_argument_leaves_writer_witness:
  "write_keyword_section [(''ab'', ''xy'')] 5 (init_writer True)
     = Raised AssertionError (init_writer True)
   \<and> write_embedding_section raw_bytes [(''AAAA'', ''c'')] 8 64 (init_writer True)
     = Raised AssertionError (init_writer True)"
  by (intro conjI
        invalid_argument_leaves_writer [THEN conjunct1, THEN mp]
        invalid_argument_leaves_writer [THEN conjunct2, THEN mp]) simp_all

section \<open>The documented scenario\<close>

text \<open>
  C8. Writing the single pair \<open>("ab", "xy")\<close> with alignment 8 serializes the record as
  the five bytes \<^verbatim>\<open>ab-xy\<close> and three zero bytes; on the file written by header,
  keyword section and finalize, on a host of either byte order, a search for \<^verbatim>\<open>ab\<close>
  returns exactly that pair and a search for \<^verbatim>\<open>zz\<close> returns nothing.
\<close>

theorem scenario_ab_xy:
  "pad (keyword_record (''ab'', ''xy'')) 8 = Inr (''ab-xy'' @ replicate 3 NUL)
   \<and> search_fresh (keyword_file True [(''ab'', ''xy'')] 8) ''ab'' 8 = Some (Inr [(''ab'', ''xy'')])
   \<and> search_fresh (keyword_file True [(''ab'', ''xy'')] 8) ''zz'' 8 = Some (Inr [])
   \<and> search_fresh (keyword_file False [(''ab'', ''xy'')] 8) ''ab'' 8 = Some (Inr [(''ab'', ''xy'')])
   \<and> search_fresh (keyword_file False [(''ab'', ''xy'')] 8) ''zz'' 8 = Some (Inr [])"
  by code_simp

section \<open>Where the code departs from its documented layout\<close>

text \<open>
  C1 (the code departs from the claim). The claim: finalize leaves every section byte
  intact, so that the bytes at each index entry's \<open>[start, end)\<close> are still the padded
  records. On the code: after header, keyword section \<open>[("ab", "xy")]\<close> with alignment 8
  and an embedding section with no pairs, the calls return, the entries
  \<open>("keyword", 28, 36)\<close> and \<open>("vector", 54, 54)\<close> are registered and the buffer holds
  the padded record at 28..36; \<^verbatim>\<open>finalize\<close> stores the 31-byte index table at offset 11,
  over the keyword metadata and over the record, and the bytes written at 28..36 are
  \<^verbatim>\<open>ector-(5\<close>.
\<close>

theorem finalize_overwrites_keyword_records:
  "returned (tester_sections True raw_bytes [(''ab'', ''xy'')] [] 8 32)
   \<and> index_entries (state_of (tester_sections True raw_bytes [(''ab'', ''xy'')] [] 8 32))
       = [(''keyword'', 28, 36), (''vector'', 54, 54)]
   \<and> py_slice (buf (state_of (tester_sections True raw_bytes [(''ab'', ''xy'')] [] 8 32))) 28 36
       = ''ab-xy'' @ replicate 3 NUL
   \<and> py_slice (snd (finalize (state_of
         (tester_sections True raw_bytes [(''ab'', ''xy'')] [] 8 32)))) 28 36
       = ''ector-(5''"
  by code_simp

text \<open>
  C2 (the code departs from the claim). The claim: on the file written from any pairs,
  \<^verbatim>\<open>search_keyword\<close> returns what the in-memory filter returns. On the code: for the
  pairs \<open>[("ab", "x"), ("cd", "y")]\<close> and alignment 4 both records are four bytes long,
  \<^verbatim>\<open>_pad\<close> adds no zero byte, and the reader's split on zero bytes sees one record
  \<^verbatim>\<open>ab-xcd-y\<close>: the search for \<^verbatim>\<open>cd\<close> returns nothing and the search for \<^verbatim>\<open>ab\<close>
  returns the content \<^verbatim>\<open>xcd-y\<close>, where the filter returns \<open>("cd", "y")\<close> and
  \<open>("ab", "x")\<close>.
\<close>

theorem search_misses_unpadded_records:
  "search_fresh (keyword_file True [(''ab'', ''x''), (''cd'', ''y'')] 4) ''cd'' 4 = Some (Inr [])
   \<and> python_search [(''ab'', ''x''), (''cd'', ''y'')] ''cd'' = [(''cd'', ''y'')]
   \<and> search_fresh (keyword_file True [(''ab'', ''x''), (''cd'', ''y'')] 4) ''ab'' 4
       = Some (Inr [(''ab'', ''xcd-y'')])
   \<and> python_search [(''ab'', ''x''), (''cd'', ''y'')] ''ab'' = [(''ab'', ''x'')]"
  by code_simp

text \<open>
  C4 (the code departs from the claim). The claim: \<^verbatim>\<open>search_keyword\<close> reads and returns
  nothing outside the \<open>[start, end)\<close> of the cached keyword entry. On the code: each
  block is \<^verbatim>\<open>mm[pos : pos + padding * 256]\<close>, not cut at \<open>end\<close>. On \<open>layout_file\<close> the
  cached entry is \<open>(60, 68)\<close>, the range holds the record \<^verbatim>\<open>ab-xy\<close>, and a search for
  \<^verbatim>\<open>BBBB\<close> returns the embedding record at 94..102. On the file the writer produces
  for C1's calls the cached entry is \<open>(28, 36)\<close> and a search for \<^verbatim>\<open>ector\<close> returns a
  pair read from the index table's bytes at 28..41.
\<close>

theorem search_reads_past_section_end:
  "index (snd (search_keyword layout_file ''BBBB'' 8 init_reader)) = [(''keyword'', 60, 68)]
   \<and> py_slice layout_file 60 68 = ''ab-xy'' @ replicate 3 NUL
   \<and> py_slice layout_file 94 102 = ''BBBB-d'' @ replicate 2 NUL
   \<and> fst (search_keyword layout_file ''BBBB'' 8 init_reader) = Inr [(''BBBB'', ''d'')]
   \<and> index (snd (search_keyword (snd (finalize (state_of
         (tester_sections True raw_bytes [(''ab'', ''xy'')] [] 8 32)))) ''ector'' 8 init_reader))
       = [(''keyword'', 28, 36)]
   \<and> fst (search_keyword (snd (finalize (state_of
         (tester_sections True raw_bytes [(''ab'', ''xy'')] [] 8 32)))) ''ector'' 8 init_reader)
       = Inr [(''ector'', ''(54,54)'')]"
  by code_simp

section \<open>Section writes keep the bytes before them\<close>

lemma length_le_bytes [simp]: "length (le_bytes n v) = n"
  by (induction n arbitrary: v) auto

lemma length_u64_bytes [simp]: "length (u64_bytes f v) = 8"
  by (simp add: u64_bytes_def)

lemma keeps_append_buf: "keeps b w \<Longrightarrow> keeps b (state_of (append_buf r w))"
  by (cases r) (auto simp: keeps_def)

lemma keeps_assign_slice:
  "keeps b w \<Longrightarrow> length b \<le> i \<Longrightarrow> keeps b (state_of (assign_slice i j r w))"
  by (cases r) (auto simp: keeps_def min_def)

lemma keeps_write_records: "keeps b w \<Longrightarrow> keeps b (state_of (write_records rs a w))"
proof (induction rs arbitrary: w)
  case Nil
  then show ?case by simp
next
  case (Cons r rs)
  show ?case
  proof (cases "pad r a")
    case (Inl e)
    with Cons.prems show ?thesis by simp
  next
    case (Inr bs)
    have "keeps b (w\<lparr>buf := buf w @ bs\<rparr>)"
      using Cons.prems by (auto simp: keeps_def)
    from Cons.IH [OF this] Inr show ?thesis by simp
  qed
qed

lemma keeps_then_do:
  assumes "keeps b (state_of m)" and "\<And>s. keeps b s \<Longrightarrow> keeps b (state_of (f s))"
  shows "keeps b (state_of (then_do m f))"
  using assms by (cases m) auto

lemma keeps_index_entries: "keeps b w \<Longrightarrow> keeps b (w\<lparr>index_entries := es\<rparr>)"
  by (simp add: keeps_def)

lemma keeps_self: "keeps (buf w) w"
  by (simp add: keeps_def)

lemma keeps_keyword_section: "keeps (buf w) (state_of (write_keyword_section pairs padding w))"
  unfolding write_keyword_section_def Let_def
  by (auto intro!: keeps_then_do keeps_append_buf keeps_assign_slice keeps_write_records
        keeps_index_entries keeps_self)

lemma keeps_embedding_section:
  "keeps (buf w) (state_of (write_embedding_section tobytes epairs padding precision w))"
  unfolding write_embedding_section_def Let_def
  by (auto intro!: keeps_then_do keeps_append_buf keeps_assign_slice keeps_write_records
        keeps_index_entries keeps_self)


text \<open>
  C9. After \<^verbatim>\<open>write_keyword_section\<close> or \<^verbatim>\<open>write_embedding_section\<close>, whether the call
  returned or raised, the buffer begins with the buffer as it was before the call: every
  byte at an offset that existed before holds the same value. The call appends its
  metadata block and padded records, and its two patches lie at or after the old end of
  the buffer.
\<close>

theorem section_writes_keep_buffer:
  "take (length (buf w)) (buf (state_of (write_keyword_section pairs padding w))) = buf w
   \<and> take (length (buf w))
        (buf (state_of (write_embedding_section tobytes epairs padding precision w))) = buf w"
  using keeps_keyword_section [of w pairs padding]
    keeps_embedding_section [of w tobytes epairs padding precision]
  by (simp add: keeps_def)

section \<open>What a returning keyword section write appends\<close>

lemma u8_alignment: "padding \<in> {4, 8, 16} \<Longrightarrow> u8 padding = Inr [char_of padding]"
  by (auto simp: u8_def)

lemma u64_small: "int n < 2 ^ 64 \<Longrightarrow> u64 f (int n) = Inr (u64_bytes f n)"
  by (simp add: u64_def)

lemma u64_zero: "u64 f 0 = Inr (u64_bytes f 0)"
  by (simp add: u64_def)

lemma write_records_returns:
  "a \<in> {4, 8, 16} \<Longrightarrow>
     write_records rs a w =
       Done (w\<lparr>buf := buf w
          @ concat (map (\<lambda>r. r @ replicate (nat ((a - int (length r) mod a) mod a)) NUL) rs)\<rparr>)"
proof (induction rs arbitrary: w)
  case Nil
  then show ?case by simp
next
  case (Cons r rs)
  from Cons.prems have "a \<noteq> 0" by auto
  then have "pad r a = Inr (r @ replicate (nat ((a - int (length r) mod a) mod a)) NUL)"
    by (simp add: pad_def Let_def)
  then show ?case
    using Cons.IH [OF Cons.prems] by simp
qed

lemma keyword_section_returns_aux:
  assumes a: "padding \<in> {4, 8, 16}"
    and recs: "\<And>w'. write_records (map keyword_record pairs) padding w' = Done (w'\<lparr>buf := buf w' @ R\<rparr>)"
    and small: "int (length (buf w) + 17 + length R) < 2 ^ 64"
  shows "write_keyword_section pairs padding w =
     Done (w\<lparr>buf := buf w @ u64_bytes (endian_flag w) (length (buf w) + 17)
                 @ u64_bytes (endian_flag w) (length (buf w) + 17 + length R)
                 @ [char_of padding] @ R,
             index_entries := index_entries w
                 @ [(''keyword'', length (buf w) + 17, length (buf w) + 17 + length R)]\<rparr>)"
proof -
  have s1: "int (length (buf w)) + 17 < 2 ^ 64" using small by linarith
  have s2: "int (length (buf w)) + 17 + int (length R) < 2 ^ 64" using small by linarith
  have n1: "\<And>n. nat (int n + 17) = n + 17" by linarith
  have n2: "\<And>n m. nat (int m + (int n + 17)) = m + (n + 17)" by linarith
  show ?thesis
    using a s1 s2
    by (simp add: write_keyword_section_def Let_def u64_def u8_alignment recs n1 n2
          add.commute add.left_commute)
qed

section \<open>Padding\<close>

text \<open>
  C7. A record padded by \<^verbatim>\<open>_pad\<close> with an alignment \<open>a\<close> of 4, 8 or 16 is the record
  followed by \<open>n\<close> zero bytes with \<open>0 \<le> n < a\<close>, and its length is a multiple of \<open>a\<close>;
  and the record loop of both section writers appends to the buffer exactly the padded
  records \<^verbatim>\<open>_pad\<close> returns, in order.
\<close>

theorem pad_aligned:
  assumes "a \<in> {4, 8, 16}"
  shows "(\<exists>n. pad record a = Inr (record @ replicate n NUL) \<and> int n < a
            \<and> int (length (record @ replicate n NUL)) mod a = 0)
         \<and> (\<exists>ps. map (\<lambda>r. pad r a) records = map Inr ps
              \<and> write_records records a w = Done (w\<lparr>buf := buf w @ concat ps\<rparr>))"
proof
  from assms have pos: "0 < a" by auto
  define k where "k = (a - int (length record) mod a) mod a"
  have k: "0 \<le> k" "k < a" using pos by (simp_all add: k_def)
  have "(int (length record) + k) mod a = 0"
    unfolding k_def by (metis add.commute diff_add_cancel mod_add_right_eq mod_self)
  then have len: "int (length (record @ replicate (nat k) NUL)) mod a = 0"
    using k by simp
  have eq: "pad record a = Inr (record @ replicate (nat k) NUL)"
    using pos by (simp add: pad_def k_def Let_def)
  have lt: "int (nat k) < a" using k by simp
  show "\<exists>n. pad record a = Inr (record @ replicate n NUL) \<and> int n < a
            \<and> int (length (record @ replicate n NUL)) mod a = 0"
    by (rule exI [of _ "nat k"]) (use eq lt len in blast)
  let ?p = "\<lambda>r. r @ replicate (nat ((a - int (length r) mod a) mod a)) NUL"
  have "map (\<lambda>r. pad r a) records = map Inr (map ?p records)"
    using pos by (simp add: pad_def Let_def)
  moreover have "write_records records a w = Done (w\<lparr>buf := buf w @ concat (map ?p records)\<rparr>)"
    using assms by (rule write_records_returns)
  ultimately show "\<exists>ps. map (\<lambda>r. pad r a) records = map Inr ps
              \<and> write_records records a w = Done (w\<lparr>buf := buf w @ concat ps\<rparr>)"
    by (intro exI [of _ "map ?p records"] conjI)
qed

theorem pad_aligned_witness:
  "(\<exists>n. pad ''ab-xy'' 8 = Inr (''ab-xy'' @ replicate n NUL) \<and> int n < 8
            \<and> int (length (''ab-xy'' @ replicate n NUL)) mod 8 = 0)
   \<and> (\<exists>ps. map (\<lambda>r. pad r 8) [''ab-xy'', ''cd-z''] = map Inr ps
        \<and> write_records [''ab-xy'', ''cd-z''] 8 (init_writer True)
            = Done ((init_writer True)\<lparr>buf := buf (init_writer True) @ concat ps\<rparr>))"
  using pad_aligned [of 8 "''ab-xy''" "[''ab-xy'', ''cd-z'']" "init_writer True"] by simp

section \<open>Reading back what the writer's index table holds\<close>

text \<open>The model of \<^verbatim>\<open>int\<close> on inputs where CPython's whitespace, digit and length rules
  show: a unit separator is not skipped, a no-break space is, an Arabic-Indic nine is a
  digit, and a literal of more than 4300 digits is refused.\<close>

lemma py_int_examples:
  "py_int [CHR 0x1F, CHR ''7''] = None"
  "py_int [CHR 0xC2, CHR 0xA0, CHR ''7''] = Some 7"
  "py_int [CHR 0xD9, CHR 0xA9] = Some 9"
  "py_int '' +1_0 '' = Some 10"
  by code_simp+

lemma int_unsigned_digit_limit: "4300 < length (filter is_digit s) \<Longrightarrow> int_unsigned s = None"
  by (cases s) (simp_all add: int_unsigned_def del: filter.simps)

lemma read_index_bytes_append:
  "NUL \<notin> set e \<Longrightarrow> read_index_bytes (e @ NUL # rest) = e"
  by (induction e) auto

lemma split_on_absent: "c \<notin> set xs \<Longrightarrow> split_on (c # sep) xs = [xs]"
  by (induction xs) auto

lemma split_on_char_append:
  "c \<notin> set xs \<Longrightarrow> split_on [c] (xs @ c # ys) = xs # split_on [c] ys"
  by (induction xs) auto

lemma split_on_name:
  "CHR ''-'' \<notin> set name \<Longrightarrow> split_on ''-('' (name @ ''-('' @ rest) = name # split_on ''-('' rest"
  by (induction name) auto

lemma utf8_ok_ascii: "\<forall>b\<in>set bs. b < 128 \<Longrightarrow> utf8_ok bs"
  by (induction bs) auto

lemma utf8_valid_ascii: "\<forall>c\<in>set s. (of_char c :: nat) < 128 \<Longrightarrow> utf8_valid s"
  by (simp add: utf8_valid_def utf8_ok_ascii)

lemma of_char_digit_char: "d < 10 \<Longrightarrow> (of_char (digit_char d) :: nat) = 48 + d"
  by (simp add: digit_char_def)

lemma is_digit_digit_char: "d < 10 \<Longrightarrow> is_digit (digit_char d)"
  by (simp add: is_digit_def of_char_digit_char)

lemma digit_val_digit_char: "d < 10 \<Longrightarrow> digit_val (digit_char d) = int d"
  by (simp add: digit_val_def of_char_digit_char)

lemma str_nat_digits: "c \<in> set (str_nat n) \<Longrightarrow> is_digit c"
proof (induction n arbitrary: c rule: str_nat.induct)
  case (1 n)
  show ?case
  proof (cases "n < 10")
    case True
    with "1.prems" show ?thesis
      by (simp add: str_nat.simps [of n] is_digit_digit_char)
  next
    case False
    with "1.prems" have "c \<in> set (str_nat (n div 10)) \<or> c = digit_char (n mod 10)"
      by (auto simp: str_nat.simps [of n])
    then show ?thesis
      using "1.IH" [OF False] by (auto simp: is_digit_digit_char)
  qed
qed

lemma str_nat_nonempty: "str_nat n \<noteq> []"
  by (simp add: str_nat.simps [of n])

lemma is_digit_facts:
  assumes "is_digit c"
  shows "(of_char c :: nat) < 127" "c \<noteq> NUL" "c \<noteq> CHR ''-''" "c \<noteq> CHR '',''"
    "c \<noteq> CHR ''+''" "c \<noteq> CHR ''_''" "\<not> is_space c"
  using assms by (auto simp: is_digit_def is_space_def NUL_def Let_def)

lemma int_digits_all:
  "\<forall>c\<in>set ds. is_digit c \<Longrightarrow>
     int_digits acc ds = Some (foldl (\<lambda>a c. a * 10 + digit_val c) acc ds)"
  by (induction ds arbitrary: acc) auto

lemma foldl_str_nat: "foldl (\<lambda>a c. a * 10 + digit_val c) 0 (str_nat n) = int n"
proof (induction n rule: str_nat.induct)
  case (1 n)
  show ?case
  proof (cases "n < 10")
    case True
    then show ?thesis by (simp add: str_nat.simps [of n] digit_val_digit_char)
  next
    case False
    have "foldl (\<lambda>a c. a * 10 + digit_val c) 0 (str_nat n)
        = int (n div 10) * 10 + int (n mod 10)"
      using False "1.IH" [OF False]
      by (simp add: str_nat.simps [of n] digit_val_digit_char)
    also have "\<dots> = int n" by (simp add: of_nat_div of_nat_mod)
    finally show ?thesis .
  qed
qed

lemma dropWhile_none: "\<forall>c\<in>set xs. \<not> P c \<Longrightarrow> dropWhile P xs = xs"
  by (cases xs) simp_all

lemma strip_no_space: "\<forall>c\<in>set s. \<not> is_space c \<Longrightarrow> strip s = s"
  by (simp add: strip_def dropWhile_none)

lemma code_points_ascii: "\<forall>b\<in>set bs. b < 128 \<Longrightarrow> code_points bs = bs"
  by (induction bs) auto

lemma to_ascii_ascii:
  "\<forall>c\<in>set s. (of_char c :: int) < 127 \<Longrightarrow> to_ascii (map of_char s) = Some s"
  by (induction s) (auto simp: to_ascii_cp_def)

lemma py_int_ascii:
  assumes "\<forall>c\<in>set s. (of_char c :: nat) < 127"
  shows "py_int s = int_literal s"
proof -
  have small: "\<forall>c\<in>set s. (of_char c :: int) < 127"
  proof
    fix c assume "c \<in> set s"
    with assms have "(of_char c :: nat) < 127" by blast
    then have "int (of_char c) < 127" by simp
    then show "(of_char c :: int) < 127" by (simp only: of_nat_of_char)
  qed
  then have "\<forall>b\<in>set (map of_char s). (b :: int) < 128" by auto
  then have "code_points (map of_char s) = map of_char s" by (rule code_points_ascii)
  then show ?thesis
    using to_ascii_ascii [OF small] by (simp add: py_int_def)
qed

lemma length_str_nat: "n < 10 ^ k \<Longrightarrow> 0 < k \<Longrightarrow> length (str_nat n) \<le> k"
proof (induction k arbitrary: n)
  case 0
  then show ?case by simp
next
  case (Suc k)
  show ?case
  proof (cases "n < 10")
    case True
    then show ?thesis by (simp add: str_nat.simps [of n])
  next
    case False
    with Suc.prems have k: "0 < k" by (cases k) auto
    have "n div 10 < 10 ^ k" using Suc.prems by (simp add: less_mult_imp_div_less mult.commute)
    from Suc.IH [OF this k] False show ?thesis
      by (simp add: str_nat.simps [of n])
  qed
qed

lemma length_str_nat_u64: "n < 2 ^ 64 \<Longrightarrow> length (str_nat n) \<le> 20"
proof -
  assume "n < 2 ^ 64"
  moreover have "(2::nat) ^ 64 < 10 ^ 20" by simp
  ultimately have "n < 10 ^ 20" by linarith
  then show ?thesis by (rule length_str_nat) simp
qed

lemma py_int_str_nat:
  assumes "n < 2 ^ 64"
  shows "py_int (str_nat n) = Some (int n)"
proof -
  obtain c cs where cs: "str_nat n = c # cs"
    using str_nat_nonempty [of n] by (cases "str_nat n") auto
  have dig: "\<forall>d\<in>set (c # cs). is_digit d"
    using str_nat_digits [of _ n] cs by auto
  then have c: "is_digit c" by simp
  have "\<forall>d\<in>set (str_nat n). (of_char d :: nat) < 127"
    using str_nat_digits [of _ n] is_digit_facts(1) by blast
  then have lit: "py_int (str_nat n) = int_literal (str_nat n)" by (rule py_int_ascii)
  have "length (filter is_digit (c # cs)) \<le> length (c # cs)" by (rule length_filter_le)
  also have "\<dots> \<le> 20" using length_str_nat_u64 [OF assms] cs by simp
  finally have few: "\<not> 4300 < length (filter is_digit (c # cs))" by simp
  have "strip (str_nat n) = c # cs"
    using strip_no_space [of "str_nat n"] str_nat_digits [of _ n] is_digit_facts(7) cs by auto
  moreover have "int_unsigned (c # cs) = Some (foldl (\<lambda>a c. a * 10 + digit_val c) 0 (c # cs))"
    using c int_digits_all [of cs "digit_val c"] dig few
    by (simp only: int_unsigned_def list.case if_True if_False foldl_Cons) simp
  ultimately have "int_literal (str_nat n) = Some (int n)"
    using is_digit_facts(3,5) [OF c] foldl_str_nat [of n] cs
    by (simp add: int_literal_def)
  then show ?thesis by (simp only: lit)
qed

lemma str_drop_last_snoc: "\<not> cont (of_char c) \<Longrightarrow> str_drop_last (xs @ [c]) = xs"
  by (simp add: str_drop_last_def)

lemma parse_entry_written:
  assumes ascii: "\<forall>c\<in>set name. (of_char c :: nat) < 128" and dash: "CHR ''-'' \<notin> set name"
    and s: "s < 2 ^ 64" and e: "e < 2 ^ 64"
  shows "parse_entry (name @ ''-('' @ str_nat s @ '','' @ str_nat e @ '')'')
           = Some (name, int s, int e)"
proof -
  let ?rest = "str_nat s @ '','' @ str_nat e @ '')''"
  have dig: "\<And>c n. c \<in> set (str_nat n) \<Longrightarrow> is_digit c" by (rule str_nat_digits)
  have "\<forall>c\<in>set (name @ ''-('' @ ?rest). (of_char c :: nat) < 128"
    using ascii dig is_digit_facts(1) by (auto intro: less_trans)
  then have valid: "utf8_valid (name @ ''-('' @ ?rest)" by (rule utf8_valid_ascii)
  have "CHR ''-'' \<notin> set ?rest"
    using dig is_digit_facts(3) by auto
  then have "split_on ''-('' ?rest = [?rest]" by (rule split_on_absent)
  then have sp1: "split_on ''-('' (name @ ''-('' @ ?rest) = [name, ?rest]"
    using split_on_name [OF dash, of ?rest] by simp
  have "str_drop_last ((str_nat s @ '','' @ str_nat e) @ [CHR '')'']) = str_nat s @ '','' @ str_nat e"
    by (rule str_drop_last_snoc) (simp add: cont_def)
  then have dl: "str_drop_last ?rest = str_nat s @ CHR '','' # str_nat e" by simp
  have c1: "CHR '','' \<notin> set (str_nat s)" and c2: "CHR '','' \<notin> set (str_nat e)"
    using dig is_digit_facts(4) by blast+
  have sp2: "split_on '','' (str_nat s @ CHR '','' # str_nat e) = [str_nat s, str_nat e]"
    using split_on_char_append [OF c1, of "str_nat e"] split_on_absent [OF c2, of "[]"] by simp
  show ?thesis
    unfolding parse_entry_def
    by (simp only: valid sp1 dl sp2 py_int_str_nat [OF s] py_int_str_nat [OF e] not_True_eq_False if_False list.case option.case)
qed

lemma parse_index_first_entry:
  assumes "length h = 11" and "NUL \<notin> set e"
  shows "parse_index (h @ e @ NUL # rest) rd = rd\<lparr>index := store_entries [e] []\<rparr>"
  using assms
  by (simp add: parse_index_def reader_header_end_def Let_def read_index_bytes_append
        split_on_absent)

lemma index_entry_written:
  assumes "name \<in> {''keyword'', ''vector''}"
  shows "NUL \<notin> set (name @ ''-('' @ str_nat s @ '','' @ str_nat e @ '')'')"
    and "s < 2 ^ 64 \<Longrightarrow> e < 2 ^ 64 \<Longrightarrow>
      parse_entry (name @ ''-('' @ str_nat s @ '','' @ str_nat e @ '')'') = Some (name, int s, int e)"
proof -
  have dig: "\<And>c n. c \<in> set (str_nat n) \<Longrightarrow> c \<noteq> NUL"
    using str_nat_digits is_digit_facts(2) by blast
  show "NUL \<notin> set (name @ ''-('' @ str_nat s @ '','' @ str_nat e @ '')'')"
    using assms dig by (auto simp: NUL_def)
  show "s < 2 ^ 64 \<Longrightarrow> e < 2 ^ 64 \<Longrightarrow>
      parse_entry (name @ ''-('' @ str_nat s @ '','' @ str_nat e @ '')'') = Some (name, int s, int e)"
    using assms by (intro parse_entry_written) auto
qed

lemma parse_index_written:
  assumes "length h = 11" and "name \<in> {''keyword'', ''vector''}"
    and "s < 2 ^ 64" and "e < 2 ^ 64"
  shows "index (parse_index (h @ index_table ((name, s, e) # others) @ rest) rd) = [(name, int s, int e)]"
proof -
  let ?e = "name @ ''-('' @ str_nat s @ '','' @ str_nat e @ '')''"
  have eq: "h @ index_table ((name, s, e) # others) @ rest = h @ ?e @ NUL # (index_table others @ rest)"
    by (simp add: index_table_def index_entry_def)
  have ne: "?e \<noteq> []" by simp
  show ?thesis
    unfolding eq
    using parse_index_first_entry [OF assms(1) index_entry_written(1) [OF assms(2)]]
      index_entry_written(2) [OF assms(2,3,4)] ne
    by simp
qed

lemma store_single_entry:
  "store_entries [entry] [] =
     (case parse_entry entry of None \<Rightarrow> [] | Some (name, se) \<Rightarrow> [(name, se)])"
proof (cases "entry = []")
  case True
  have "parse_entry [] = None" by code_simp
  with True show ?thesis by simp
next
  case False
  then show ?thesis by (simp split: option.splits)
qed

text \<open>
  C3, as the claim states it, fails on the code: the mapping need not hold the entry
  before the first terminator. In a file whose index region is \<^verbatim>\<open>garbage\<close>, a zero byte
  and a well-formed entry for \<open>vector\<close>, and in one whose region begins with a zero byte
  followed by a well-formed entry for \<open>keyword\<close>, two terminated entries are present and
  \<^verbatim>\<open>parse_index\<close> caches nothing.
\<close>

theorem first_entry_may_be_lost:
  "index (parse_index (MAGIC @ [CHR 0x00, CHR 0x01, CHR 0x00, CHR 0x00]
       @ ''garbage'' @ [NUL] @ index_table [(''vector'', 86, 102)]) init_reader) = []
   \<and> index (parse_index (MAGIC @ [CHR 0x00, CHR 0x01, CHR 0x00, CHR 0x00]
       @ [NUL] @ index_table [(''keyword'', 60, 68)]) init_reader) = []"
  by code_simp

text \<open>
  C3, amended. Let the bytes of a file from offset 11 be a first entry \<open>e1\<close> free of zero
  bytes, a zero byte, and anything after it. \<^verbatim>\<open>parse_index\<close> reads \<open>e1\<close> only: the reader
  it leaves is the one it leaves when nothing follows the first terminator, and the cached
  index holds at most one entry. It holds none when \<open>e1\<close> is empty, and exactly
  \<open>(name, start, end)\<close> when \<open>e1\<close> is the entry the writer builds for \<open>keyword\<close> or
  \<open>vector\<close> with offsets below 2^64.
\<close>

theorem parse_index_reads_first_entry_only:
  assumes "length header = 11" and "NUL \<notin> set e1"
  shows "parse_index (header @ e1 @ NUL # rest) rd = parse_index (header @ e1 @ [NUL]) rd
    \<and> length (index (parse_index (header @ e1 @ NUL # rest) rd)) \<le> 1
    \<and> (e1 = [] \<longrightarrow> index (parse_index (header @ e1 @ NUL # rest) rd) = [])
    \<and> (\<forall>name s e. name \<in> {''keyword'', ''vector''} \<and> s < 2 ^ 64 \<and> e < 2 ^ 64
            \<and> e1 = name @ ''-('' @ str_nat s @ '','' @ str_nat e @ '')''
          \<longrightarrow> index (parse_index (header @ e1 @ NUL # rest) rd) = [(name, int s, int e)])"
proof -
  have first: "\<And>r. parse_index (header @ e1 @ NUL # r) rd = rd\<lparr>index := store_entries [e1] []\<rparr>"
    using assms by (rule parse_index_first_entry)
  have idx: "index (parse_index (header @ e1 @ NUL # rest) rd) = store_entries [e1] []"
    by (simp add: first)
  have a: "parse_index (header @ e1 @ NUL # rest) rd = parse_index (header @ e1 @ [NUL]) rd"
    by (simp only: first)
  have b: "length (index (parse_index (header @ e1 @ NUL # rest) rd)) \<le> 1"
    unfolding idx store_single_entry by (simp split: option.splits)
  have c: "e1 = [] \<longrightarrow> index (parse_index (header @ e1 @ NUL # rest) rd) = []"
    unfolding idx by simp
  have d: "\<forall>name s e. name \<in> {''keyword'', ''vector''} \<and> s < 2 ^ 64 \<and> e < 2 ^ 64
            \<and> e1 = name @ ''-('' @ str_nat s @ '','' @ str_nat e @ '')''
          \<longrightarrow> index (parse_index (header @ e1 @ NUL # rest) rd) = [(name, int s, int e)]"
  proof (intro allI impI, elim conjE)
    fix name s e
    assume n: "name \<in> {''keyword'', ''vector''}" and s: "s < 2 ^ 64" and e: "e < 2 ^ 64"
      and e1: "e1 = name @ ''-('' @ str_nat s @ '','' @ str_nat e @ '')''"
    have "parse_entry e1 = Some (name, int s, int e)"
      unfolding e1 using n s e by (rule index_entry_written(2))
    then show "index (parse_index (header @ e1 @ NUL # rest) rd) = [(name, int s, int e)]"
      unfolding idx store_single_entry by simp
  qed
  from a b c d show ?thesis by blast
qed

theorem parse_index_reads_first_entry_only_witness:
  "parse_index ((MAGIC @ [CHR 0x00, CHR 0x01, CHR 0x00, CHR 0x00]) @ ''keyword-(60,68)''
       @ NUL # ''vector-(86,102)'') init_reader
     = parse_index ((MAGIC @ [CHR 0x00, CHR 0x01, CHR 0x00, CHR 0x00]) @ ''keyword-(60,68)''
       @ [NUL]) init_reader
   \<and> length (index (parse_index ((MAGIC @ [CHR 0x00, CHR 0x01, CHR 0x00, CHR 0x00])
       @ ''keyword-(60,68)'' @ NUL # ''vector-(86,102)'') init_reader)) \<le> 1
   \<and> index (parse_index ((MAGIC @ [CHR 0x00, CHR 0x01, CHR 0x00, CHR 0x00])
       @ ''keyword-(60,68)'' @ NUL # ''vector-(86,102)'') init_reader) = [(''keyword'', 60, 68)]
   \<and> index (parse_index ((MAGIC @ [CHR 0x00, CHR 0x01, CHR 0x00, CHR 0x00])
       @ [] @ NUL # ''vector-(86,102)'') init_reader) = []"
proof -
  let ?h = "MAGIC @ [CHR 0x00, CHR 0x01, CHR 0x00, CHR 0x00]"
  have h: "length ?h = 11" by (simp add: MAGIC_def)
  have n: "NUL \<notin> set ''keyword-(60,68)''" by (simp add: NUL_def)
  have e1: "''keyword-(60,68)'' = ''keyword'' @ ''-('' @ str_nat 60 @ '','' @ str_nat 68 @ '')''"
    by code_simp
  have k: "''keyword'' \<in> {''keyword'', ''vector''}" by simp
  have s: "(60::nat) < 2 ^ 64" and e: "(68::nat) < 2 ^ 64" by simp_all
  note t = parse_index_reads_first_entry_only [OF h n, of "''vector-(86,102)''" init_reader]
  have n0: "NUL \<notin> set []" by simp
  note u = parse_index_reads_first_entry_only
             [OF h n0, of "''vector-(86,102)''" init_reader]
  from t have t1: "parse_index (?h @ ''keyword-(60,68)'' @ NUL # ''vector-(86,102)'') init_reader
      = parse_index (?h @ ''keyword-(60,68)'' @ [NUL]) init_reader"
    and t2: "length (index (parse_index (?h @ ''keyword-(60,68)'' @ NUL # ''vector-(86,102)'')
      init_reader)) \<le> 1"
    by blast+
  from t k s e e1
  have t3: "index (parse_index (?h @ ''keyword-(60,68)'' @ NUL # ''vector-(86,102)'') init_reader)
      = [(''keyword'', int 60, int 68)]"
    by blast
  from u have u1: "index (parse_index (?h @ [] @ NUL # ''vector-(86,102)'') init_reader) = []"
    by blast
  from t1 t2 t3 u1 show ?thesis by simp
qed

section \<open>Entries the parse rejects\<close>

text \<open>
  C5, as the claim states it, fails on the code: \<^verbatim>\<open>parse_index\<close> has no raise of its
  own, and the body that decodes an entry stands in a \<^verbatim>\<open>try\<close> whose handler is
  \<^verbatim>\<open>continue\<close>. The entry \<^verbatim>\<open>garbage\<close> is passed over and leaves an empty index; the
  entry \<^verbatim>\<open>keyword-(5,3)\<close>, whose start exceeds its end, is stored; and the entry
  \<^verbatim>\<open>keyword-(1,2x\<close> is stored as \<open>(1, 2)\<close>, since the last character is cut off
  unread.
\<close>

theorem malformed_entry_not_rejected:
  "index (parse_index (MAGIC @ [CHR 0x00, CHR 0x01, CHR 0x00, CHR 0x00] @ ''garbage'' @ [NUL])
      init_reader) = []
   \<and> index (parse_index (MAGIC @ [CHR 0x00, CHR 0x01, CHR 0x00, CHR 0x00] @ ''keyword-(5,3)'' @ [NUL])
      init_reader) = [(''keyword'', 5, 3)]
   \<and> index (parse_index (MAGIC @ [CHR 0x00, CHR 0x01, CHR 0x00, CHR 0x00] @ ''keyword-(1,2x'' @ [NUL])
      init_reader) = [(''keyword'', 1, 2)]"
  by code_simp

text \<open>
  C5, amended. Decoding the entry at offset 11 (the bytes before the first zero byte)
  never fails, and what it leaves in the index is decided by the steps of the \<^verbatim>\<open>try\<close>
  alone. The index stays empty when the entry is not UTF-8, when it does not split into
  exactly two parts at \<^verbatim>\<open>-(\<close>, when the second part less its last character does not
  split into exactly two fields at the comma, or when \<^verbatim>\<open>int\<close> rejects a field. In every
  other case the entry is stored under its name with the two integers \<^verbatim>\<open>int\<close> gives:
  the last character is not looked at and start is not compared with end, so that a
  writer-built entry for \<open>keyword\<close> whose start exceeds its end is stored as it stands.
\<close>

theorem entry_decoding_never_fails:
  assumes "length header = 11" and "NUL \<notin> set entry"
  shows "(\<not> utf8_valid entry \<longrightarrow> index (parse_index (header @ entry @ NUL # rest) rd) = [])
    \<and> (length (split_on ''-('' entry) \<noteq> 2 \<longrightarrow>
          index (parse_index (header @ entry @ NUL # rest) rd) = [])
    \<and> (\<forall>name r. split_on ''-('' entry = [name, r]
            \<and> length (split_on '','' (str_drop_last r)) \<noteq> 2
          \<longrightarrow> index (parse_index (header @ entry @ NUL # rest) rd) = [])
    \<and> (\<forall>name r a b. split_on ''-('' entry = [name, r]
            \<and> split_on '','' (str_drop_last r) = [a, b] \<and> (py_int a = None \<or> py_int b = None)
          \<longrightarrow> index (parse_index (header @ entry @ NUL # rest) rd) = [])
    \<and> (\<forall>name r a b s e. utf8_valid entry \<and> split_on ''-('' entry = [name, r]
            \<and> split_on '','' (str_drop_last r) = [a, b] \<and> py_int a = Some s \<and> py_int b = Some e
          \<longrightarrow> index (parse_index (header @ entry @ NUL # rest) rd) = [(name, s, e)])
    \<and> (\<forall>s e. e < s \<and> s < 2 ^ 64 \<longrightarrow>
          index (parse_index (header @ (''keyword-('' @ str_nat s @ '','' @ str_nat e @ '')'')
            @ NUL # rest) rd) = [(''keyword'', int s, int e)])"
proof -
  have idx: "index (parse_index (header @ entry @ NUL # rest) rd) = store_entries [entry] []"
    using parse_index_first_entry [OF assms] by simp
  have c1: "\<not> utf8_valid entry \<longrightarrow> index (parse_index (header @ entry @ NUL # rest) rd) = []"
    unfolding idx store_single_entry by (simp add: parse_entry_def)
  have c2: "length (split_on ''-('' entry) \<noteq> 2 \<longrightarrow>
          index (parse_index (header @ entry @ NUL # rest) rd) = []"
    unfolding idx store_single_entry by (auto simp: parse_entry_def split: list.splits)
  have c3: "\<forall>name r. split_on ''-('' entry = [name, r]
            \<and> length (split_on '','' (str_drop_last r)) \<noteq> 2
          \<longrightarrow> index (parse_index (header @ entry @ NUL # rest) rd) = []"
    unfolding idx store_single_entry by (auto simp: parse_entry_def split: list.splits)
  have c4: "\<forall>name r a b. split_on ''-('' entry = [name, r]
            \<and> split_on '','' (str_drop_last r) = [a, b] \<and> (py_int a = None \<or> py_int b = None)
          \<longrightarrow> index (parse_index (header @ entry @ NUL # rest) rd) = []"
    unfolding idx store_single_entry by (auto simp: parse_entry_def split: option.splits)
  have c5: "\<forall>name r a b s e. utf8_valid entry \<and> split_on ''-('' entry = [name, r]
            \<and> split_on '','' (str_drop_last r) = [a, b] \<and> py_int a = Some s \<and> py_int b = Some e
          \<longrightarrow> index (parse_index (header @ entry @ NUL # rest) rd) = [(name, s, e)]"
    unfolding idx store_single_entry by (simp add: parse_entry_def)
  have c6: "\<forall>s e. e < s \<and> s < 2 ^ 64 \<longrightarrow>
          index (parse_index (header @ (''keyword-('' @ str_nat s @ '','' @ str_nat e @ '')'')
            @ NUL # rest) rd) = [(''keyword'', int s, int e)]"
  proof (intro allI impI, elim conjE)
    fix s e :: nat
    assume "e < s" and s: "s < 2 ^ 64"
    then have e: "e < 2 ^ 64" by simp
    have k: "''keyword'' \<in> {''keyword'', ''vector''}" by simp
    from parse_index_written [OF assms(1) k s e, of "[]" rest rd]
    show "index (parse_index (header @ (''keyword-('' @ str_nat s @ '','' @ str_nat e @ '')'')
            @ NUL # rest) rd) = [(''keyword'', int s, int e)]"
      by (simp add: index_table_def index_entry_def)
  qed
  from c1 c2 c3 c4 c5 c6 show ?thesis by blast
qed

theorem entry_decoding_never_fails_witness:
  "index (parse_index ((MAGIC @ [CHR 0x00, CHR 0x01, CHR 0x00, CHR 0x00])
       @ [CHR ''k'', CHR 0xFF] @ NUL # ''ab-xy'') init_reader) = []
   \<and> index (parse_index ((MAGIC @ [CHR 0x00, CHR 0x01, CHR 0x00, CHR 0x00])
       @ ''bad-entry'' @ NUL # ''ab-xy'') init_reader) = []
   \<and> index (parse_index ((MAGIC @ [CHR 0x00, CHR 0x01, CHR 0x00, CHR 0x00])
       @ ''k-(1;2)'' @ NUL # ''ab-xy'') init_reader) = []
   \<and> index (parse_index ((MAGIC @ [CHR 0x00, CHR 0x01, CHR 0x00, CHR 0x00])
       @ ''k-(x,2)'' @ NUL # ''ab-xy'') init_reader) = []
   \<and> index (parse_index ((MAGIC @ [CHR 0x00, CHR 0x01, CHR 0x00, CHR 0x00])
       @ ''keyword-(9,4)'' @ NUL # ''ab-xy'') init_reader) = [(''keyword'', 9, 4)]
   \<and> index (parse_index ((MAGIC @ [CHR 0x00, CHR 0x01, CHR 0x00, CHR 0x00])
       @ (''keyword-('' @ str_nat 9 @ '','' @ str_nat 4 @ '')'') @ NUL # ''ab-xy'') init_reader)
     = [(''keyword'', int 9, int 4)]"
proof -
  let ?h = "MAGIC @ [CHR 0x00, CHR 0x01, CHR 0x00, CHR 0x00]"
  have h: "length ?h = 11" by (simp add: MAGIC_def)
  have n1: "NUL \<notin> set [CHR ''k'', CHR 0xFF]" and n2: "NUL \<notin> set ''bad-entry''"
    and n3: "NUL \<notin> set ''k-(1;2)''" and n4: "NUL \<notin> set ''k-(x,2)''"
    and n5: "NUL \<notin> set ''keyword-(9,4)''"
    by (simp_all add: NUL_def)
  have p1: "\<not> utf8_valid [CHR ''k'', CHR 0xFF]" by code_simp
  have p2: "length (split_on ''-('' ''bad-entry'') \<noteq> 2" by code_simp
  have p3: "split_on ''-('' ''k-(1;2)'' = [''k'', ''1;2)'']"
    and q3: "length (split_on '','' (str_drop_last ''1;2)'')) \<noteq> 2"
    by code_simp+
  have p4: "split_on ''-('' ''k-(x,2)'' = [''k'', ''x,2)'']"
    and q4: "split_on '','' (str_drop_last ''x,2)'') = [''x'', ''2'']"
    and r4: "py_int ''x'' = None"
    by code_simp+
  have p5: "utf8_valid ''keyword-(9,4)''"
    and q5: "split_on ''-('' ''keyword-(9,4)'' = [''keyword'', ''9,4)'']"
    and r5: "split_on '','' (str_drop_last ''9,4)'') = [''9'', ''4'']"
    and s5: "py_int ''9'' = Some 9" and t5: "py_int ''4'' = Some 4"
    by code_simp+
  have p6: "(4::nat) < 9 \<and> (9::nat) < 2 ^ 64" by simp
  from entry_decoding_never_fails [OF h n1, of "''ab-xy''" init_reader] p1
  have a: "index (parse_index (?h @ [CHR ''k'', CHR 0xFF] @ NUL # ''ab-xy'') init_reader) = []"
    by blast
  from entry_decoding_never_fails [OF h n2, of "''ab-xy''" init_reader] p2
  have b: "index (parse_index (?h @ ''bad-entry'' @ NUL # ''ab-xy'') init_reader) = []"
    by blast
  from entry_decoding_never_fails [OF h n3, of "''ab-xy''" init_reader] p3 q3
  have c: "index (parse_index (?h @ ''k-(1;2)'' @ NUL # ''ab-xy'') init_reader) = []"
    by blast
  from entry_decoding_never_fails [OF h n4, of "''ab-xy''" init_reader] p4 q4 r4
  have d: "index (parse_index (?h @ ''k-(x,2)'' @ NUL # ''ab-xy'') init_reader) = []"
    by blast
  from entry_decoding_never_fails [OF h n5, of "''ab-xy''" init_reader] p5 q5 r5 s5 t5
  have e: "index (parse_index (?h @ ''keyword-(9,4)'' @ NUL # ''ab-xy'') init_reader)
             = [(''keyword'', 9, 4)]"
    by blast
  from entry_decoding_never_fails [OF h n5, of "''ab-xy''" init_reader] p6
  have f: "index (parse_index (?h @ (''keyword-('' @ str_nat 9 @ '','' @ str_nat 4 @ '')'')
             @ NUL # ''ab-xy'') init_reader) = [(''keyword'', int 9, int 4)]"
    by blast
  from a b c d e f show ?thesis by blast
qed

section \<open>An empty keyword section\<close>

lemma search_keyword_empty_range:
  assumes "length h = 11" and "n < 2 ^ 64"
  shows "fst (search_keyword (h @ index_table ((''keyword'', n, n) # others) @ rest)
            query p init_reader) = Inr []"
proof -
  let ?f = "h @ index_table ((''keyword'', n, n) # others) @ rest"
  have idx: "index (parse_index ?f init_reader) = [(''keyword'', int n, int n)]"
    using parse_index_written [OF assms(1) _ assms(2) assms(2), of "''keyword''"] by simp
  have ne: "?f \<noteq> []" using assms by auto
  have loop: "search_loop ?f query p (int n) (int n) [] = Inr []"
    by (simp add: search_loop.simps)
  show ?thesis
    using idx ne loop by (simp add: search_keyword_def init_reader_def Let_def)
qed

lemma write_header_little:
  "write_header 0 1 0 (init_writer True) =
     Done \<lparr>buf = MAGIC @ [CHR 0x00, CHR 0x01, CHR 0x00] @ [CHR 0x00],
           index_entries = [], endian_flag = 0\<rparr>"
  by code_simp

lemma write_header_big:
  "write_header 0 1 0 (init_writer False) =
     Done \<lparr>buf = MAGIC @ [CHR 0x00, CHR 0x01, CHR 0x00] @ [CHR 0x01],
           index_entries = [], endian_flag = 1\<rparr>"
  by code_simp

lemma write_header_default:
  "write_header 0 1 0 (init_writer little) =
     Done \<lparr>buf = MAGIC @ [CHR 0x00, CHR 0x01, CHR 0x00] @ [if little then CHR 0x00 else CHR 0x01],
           index_entries = [], endian_flag = (if little then 0 else 1)\<rparr>"
  using write_header_little write_header_big by (cases little) simp_all

lemma str_nat_28: "str_nat 28 = ''28''"
  by code_simp

lemma keyword_section_empty:
  assumes "padding \<in> {4, 8, 16}" and "int (length (buf w)) + 17 < 2 ^ 64"
  shows "write_keyword_section [] padding w =
     Done (w\<lparr>buf := buf w @ u64_bytes (endian_flag w) (length (buf w) + 17)
                 @ u64_bytes (endian_flag w) (length (buf w) + 17) @ [char_of padding],
             index_entries := index_entries w
                 @ [(''keyword'', length (buf w) + 17, length (buf w) + 17)]\<rparr>)"
  using keyword_section_returns_aux [where pairs = "[]" and R = "[]" and padding = padding and w = w]
    assms
  by simp

lemma keyword_file_empty:
  assumes "padding \<in> {4, 8, 16}"
  shows "keyword_file little [] padding =
     Some ((MAGIC @ [CHR 0x00, CHR 0x01, CHR 0x00] @ [if little then CHR 0x00 else CHR 0x01])
           @ index_table [(''keyword'', 28, 28)] @ [char_of padding])"
proof -
  have len: "length (index_table [(''keyword'', 28, 28)]) = 16"
    by (simp add: index_table_def index_entry_def str_nat_28)
  show ?thesis
    using assms len
    by (simp add: keyword_file_def write_header_default keyword_section_empty MAGIC_def
          finalize_def write_index_strategy_def Let_def header_end_def)
qed


text \<open>
  C10. With an alignment of 4, 8 or 16, \<^verbatim>\<open>write_keyword_section\<close> on an empty list
  returns, having appended the 17 bytes of the metadata block and registered an entry
  whose start and end are both the new end of the buffer (for any writer whose buffer
  stays below 2^64 bytes, beyond which \<^verbatim>\<open>struct.pack\<close> raises). On the file written by
  header, that section and finalize, on a host of either byte order, a fresh reader's
  search returns the empty list for every query and every search alignment.
\<close>

theorem empty_keyword_section:
  assumes "padding \<in> {4, 8, 16}"
  shows "(int (length (buf w)) + 17 < 2 ^ 64 \<longrightarrow>
           (\<exists>w'. write_keyword_section [] padding w = Done w'
              \<and> length (buf w') = length (buf w) + 17
              \<and> index_entries w' = index_entries w
                   @ [(''keyword'', length (buf w) + 17, length (buf w) + 17)]))
         \<and> (\<exists>f. keyword_file little [] padding = Some f
              \<and> (\<forall>query p. fst (search_keyword f query p init_reader) = Inr []))"
proof (intro conjI impI)
  assume "int (length (buf w)) + 17 < 2 ^ 64"
  from keyword_section_empty [OF assms this]
  show "\<exists>w'. write_keyword_section [] padding w = Done w'
              \<and> length (buf w') = length (buf w) + 17
              \<and> index_entries w' = index_entries w
                   @ [(''keyword'', length (buf w) + 17, length (buf w) + 17)]"
    by simp
next
  let ?h = "MAGIC @ [CHR 0x00, CHR 0x01, CHR 0x00] @ [if little then CHR 0x00 else CHR 0x01]"
  have h: "length ?h = 11" by (simp add: MAGIC_def)
  show "\<exists>f. keyword_file little [] padding = Some f
              \<and> (\<forall>query p. fst (search_keyword f query p init_reader) = Inr [])"
    using keyword_file_empty [OF assms, of little]
      search_keyword_empty_range [OF h, of 28 "[]" "[char_of padding]"]
    by simp
qed

theorem empty_keyword_section_witness:
  "(\<exists>w'. write_keyword_section [] 8 (init_writer True) = Done w'
      \<and> length (buf w') = length (buf (init_writer True)) + 17
      \<and> index_entries w' = index_entries (init_writer True)
           @ [(''keyword'', length (buf (init_writer True)) + 17, length (buf (init_writer True)) + 17)])
   \<and> (\<exists>f. keyword_file True [] 8 = Some f
        \<and> (\<forall>query p. fst (search_keyword f query p init_reader) = Inr []))"
  using empty_keyword_section [of 8 "init_writer True" True]
  by (simp add: init_writer_def)

end
